theory Spec2Isabelle
  imports Main "HOL-Library.Sublist"
begin

section \<open>Decoded documents\<close>

text \<open>
  \<^verbatim>\<open>json.loads\<close> yields \<^verbatim>\<open>None\<close>, \<^verbatim>\<open>bool\<close>, \<^verbatim>\<open>int\<close>, \<^verbatim>\<open>float\<close>, \<^verbatim>\<open>str\<close>, \<^verbatim>\<open>list\<close> and
  \<^verbatim>\<open>dict\<close> values. The validator never computes with a float, it only asks for its
  type, so a float is a mantissa and a binary exponent, an infinity or a NaN (the default
  decoder accepts \<^verbatim>\<open>Infinity\<close> and \<^verbatim>\<open>NaN\<close>). A \<^verbatim>\<open>dict\<close> is the list of its items in iteration
  order; the decoder keeps one item per key.
\<close>

datatype pyfloat = Finite int int | Infinity bool | NaN

datatype json =
    JNull
  | JBool bool
  | JInt int
  | JFloat pyfloat
  | JStr string
  | JArr "json list"
  | JObj "(string \<times> json) list"

text \<open>\<^verbatim>\<open>isinstance(value, T)\<close>. A Python \<^verbatim>\<open>bool\<close> is an \<^verbatim>\<open>int\<close> as well.\<close>

fun isinstance_dict :: "json \<Rightarrow> bool" where
  "isinstance_dict (JObj kvs) = True"
| "isinstance_dict v = False"

fun isinstance_list :: "json \<Rightarrow> bool" where
  "isinstance_list (JArr vs) = True"
| "isinstance_list v = False"

fun isinstance_str :: "json \<Rightarrow> bool" where
  "isinstance_str (JStr s) = True"
| "isinstance_str v = False"

fun isinstance_bool :: "json \<Rightarrow> bool" where
  "isinstance_bool (JBool b) = True"
| "isinstance_bool v = False"

fun isinstance_int :: "json \<Rightarrow> bool" where
  "isinstance_int (JInt i) = True"
| "isinstance_int (JBool b) = True"
| "isinstance_int v = False"

fun isinstance_float :: "json \<Rightarrow> bool" where
  "isinstance_float (JFloat x) = True"
| "isinstance_float v = False"

text \<open>\<^verbatim>\<open>type(value).__name__\<close>\<close>

fun type_name :: "json \<Rightarrow> string" where
  "type_name JNull = ''NoneType''"
| "type_name (JBool b) = ''bool''"
| "type_name (JInt i) = ''int''"
| "type_name (JFloat x) = ''float''"
| "type_name (JStr s) = ''str''"
| "type_name (JArr vs) = ''list''"
| "type_name (JObj kvs) = ''dict''"

text \<open>
  The items of a \<^verbatim>\<open>dict\<close>, the elements of a \<^verbatim>\<open>list\<close> and the characters of a \<^verbatim>\<open>str\<close>; each
  is only applied behind the matching \<^verbatim>\<open>isinstance\<close> test.
\<close>

fun dict_items :: "json \<Rightarrow> (string \<times> json) list" where
  "dict_items (JObj kvs) = kvs"
| "dict_items v = []"

fun list_elems :: "json \<Rightarrow> json list" where
  "list_elems (JArr vs) = vs"
| "list_elems v = []"

fun str_chars :: "json \<Rightarrow> string" where
  "str_chars (JStr s) = s"
| "str_chars v = []"

text \<open>
  \<^verbatim>\<open>d.get(key)\<close>: the value stored under the key, \<^verbatim>\<open>None\<close> when there is none. A stored
  \<^verbatim>\<open>null\<close> and a missing key give the same result, as in Python.
\<close>

definition dict_get :: "json \<Rightarrow> string \<Rightarrow> json" where
  "dict_get d key = (case map_of (dict_items d) key of None \<Rightarrow> JNull | Some v \<Rightarrow> v)"

text \<open>\<^verbatim>\<open>key in d\<close>\<close>

definition dict_contains :: "json \<Rightarrow> string \<Rightarrow> bool" where
  "dict_contains d key = (map_of (dict_items d) key \<noteq> None)"

text \<open>The representation invariant of a decoded document: no key twice in one object.\<close>

fun wf_json :: "json \<Rightarrow> bool" where
  "wf_json (JArr vs) = (\<forall>v \<in> set vs. wf_json v)"
| "wf_json (JObj kvs) = (distinct (map fst kvs) \<and> (\<forall>kv \<in> set kvs. wf_json (snd kv)))"
| "wf_json v = True"

section \<open>Strings\<close>

text \<open>\<^verbatim>\<open>s.startswith(p)\<close> and \<^verbatim>\<open>s.endswith(p)\<close>\<close>

definition startswith :: "string \<Rightarrow> string \<Rightarrow> bool" where
  "startswith s p = (take (length p) s = p)"

definition endswith :: "string \<Rightarrow> string \<Rightarrow> bool" where
  "endswith s p = (length p \<le> length s \<and> drop (length s - length p) s = p)"

text \<open>
  The slice \<^verbatim>\<open>s[i:-j]\<close> for \<open>j > 0\<close>: from index \<open>i\<close> up to \<open>j\<close> characters before the end,
  empty when that range is empty.
\<close>

definition slice_to_end :: "string \<Rightarrow> nat \<Rightarrow> nat \<Rightarrow> string" where
  "slice_to_end s i j = drop i (take (length s - j) s)"

section \<open>Type descriptors and the type grammar\<close>

text \<open>
  \<^verbatim>\<open>
  @dataclass(frozen=True)
  class StatType:
      kind: str
      is_array: bool
      resource_type: Optional[str] = None

      def element_type(self) -> "StatType":
          return StatType(self.kind, False, self.resource_type)
  \<close>
\<close>

record StatType =
  kind :: string
  is_array :: bool
  resource_type :: "string option"

definition element_type :: "StatType \<Rightarrow> StatType" where
  "element_type self = \<lparr>kind = kind self, is_array = False, resource_type = resource_type self\<rparr>"

text \<open>
  \<^verbatim>\<open>
  def parse_type(type_token: str) -> StatType:
      is_array = type_token.endswith("[]")
      core = type_token[:-2] if is_array else type_token
      if core.startswith("resource<") and core.endswith(">"):
          return StatType("resource", is_array, core[len("resource<") : -1])
      if core == "resource":
          return StatType("resource", is_array, None)
      if core in {"string", "bool", "integer", "photo"}:
          return StatType(core, is_array, None)
      return StatType("unknown", is_array, None)
  \<close>
\<close>

definition parse_type :: "string \<Rightarrow> StatType" where
  "parse_type type_token =
     (let is_arr = endswith type_token ''[]'';
          core = (if is_arr then slice_to_end type_token 0 2 else type_token)
      in if startswith core ''resource<'' \<and> endswith core ''>'' then
           \<lparr>kind = ''resource'', is_array = is_arr,
            resource_type = Some (slice_to_end core (length ''resource<'') 1)\<rparr>
         else if core = ''resource'' then
           \<lparr>kind = ''resource'', is_array = is_arr, resource_type = None\<rparr>
         else if core \<in> {''string'', ''bool'', ''integer'', ''photo''} then
           \<lparr>kind = core, is_array = is_arr, resource_type = None\<rparr>
         else
           \<lparr>kind = ''unknown'', is_array = is_arr, resource_type = None\<rparr>)"

text \<open>
  A resource kind's schema maps statistic names to type descriptors; the registry maps
  resource kinds to schemas (\<^verbatim>\<open>Dict[str, Dict[str, StatType]]\<close>).
\<close>

type_synonym stats_schema = "string \<rightharpoonup> StatType"
type_synonym schema = "string \<rightharpoonup> stats_schema"

section \<open>The schema compiler\<close>

text \<open>
  Characters are code points below 256. Among them, \<^verbatim>\<open>str.isspace\<close>, \<^verbatim>\<open>str.strip\<close> and the
  pattern class \<^verbatim>\<open>\s\<close> of a \<^verbatim>\<open>str\<close> pattern take the same characters for whitespace: tab to
  carriage return, the four separators \<^verbatim>\<open>\x1c\<close> to \<^verbatim>\<open>\x1f\<close>, the space, \<^verbatim>\<open>\x85\<close> and \<^verbatim>\<open>\xa0\<close>.
\<close>

definition isspace :: "char \<Rightarrow> bool" where
  "isspace c = (c \<in> {CHR 0x09, CHR 0x0A, CHR 0x0B, CHR 0x0C, CHR 0x0D, CHR 0x1C, CHR 0x1D,
                      CHR 0x1E, CHR 0x1F, CHR 0x20, CHR 0x85, CHR 0xA0})"

text \<open>The pattern class \<^verbatim>\<open>[A-Za-z0-9_]\<close>\<close>

definition is_word_char :: "char \<Rightarrow> bool" where
  "is_word_char c =
     (c \<in> set ''ABCDEFGHIJKLMNOPQRSTUVWXYZabcdefghijklmnopqrstuvwxyz0123456789_'')"

text \<open>\<^verbatim>\<open>s.strip()\<close>\<close>

definition strip :: "string \<Rightarrow> string" where
  "strip s = rev (dropWhile isspace (rev (dropWhile isspace s)))"

text \<open>
  \<^verbatim>\<open>text.splitlines()\<close>: the lines of a text without their line boundaries. A boundary is
  \<^verbatim>\<open>\r\n\<close>, or one of \<^verbatim>\<open>\n\<close>, \<^verbatim>\<open>\r\<close>, \<^verbatim>\<open>\x0b\<close>, \<^verbatim>\<open>\x0c\<close>, \<^verbatim>\<open>\x1c\<close>, \<^verbatim>\<open>\x1d\<close>, \<^verbatim>\<open>\x1e\<close>, \<^verbatim>\<open>\x85\<close>; a text that
  ends in a boundary has no empty last line.
\<close>

definition is_line_boundary :: "char \<Rightarrow> bool" where
  "is_line_boundary c =
     (c \<in> {CHR 0x0A, CHR 0x0D, CHR 0x0B, CHR 0x0C, CHR 0x1C, CHR 0x1D, CHR 0x1E, CHR 0x85})"

fun splitlines_from :: "string \<Rightarrow> string \<Rightarrow> string list" where
  "splitlines_from cur [] = (if cur = [] then [] else [cur])"
| "splitlines_from cur [c] = (if is_line_boundary c then [cur] else [cur @ [c]])"
| "splitlines_from cur (c # d # cs) =
     (if c = CHR 0x0D \<and> d = CHR 0x0A then cur # splitlines_from [] cs
      else if is_line_boundary c then cur # splitlines_from [] (d # cs)
      else splitlines_from (cur @ [c]) (d # cs))"

definition splitlines :: "string \<Rightarrow> string list" where
  "splitlines text = splitlines_from [] text"

text \<open>
  \<^verbatim>\<open>BASE_STAT_PATTERN = re.compile(r"^base\s+([^\s]+)\s+([A-Za-z0-9_]+)\s*\(")\<close>

  \<^verbatim>\<open>BASE_STAT_PATTERN.match(s)\<close> as a scanner from the left, each repetition taking all it
  can. The result is the pair of groups, \<open>None\<close> when there is no match. No shorter
  repetition can lead to a match: what follows a repetition must begin with a character
  outside its class (see \<open>BASE_STAT_PATTERN_match_iff\<close> below).
\<close>

definition BASE_STAT_PATTERN_match :: "string \<Rightarrow> (string \<times> string) option" where
  "BASE_STAT_PATTERN_match s =
     (let after_base = drop (length ''base'') s;
          after_ws1 = dropWhile isspace after_base;
          type_token = takeWhile (\<lambda>c. \<not> isspace c) after_ws1;
          after_type = dropWhile (\<lambda>c. \<not> isspace c) after_ws1;
          after_ws2 = dropWhile isspace after_type;
          stat_name = takeWhile is_word_char after_ws2;
          after_name = dropWhile is_word_char after_ws2;
          after_ws3 = dropWhile isspace after_name
      in if startswith s ''base''
            \<and> takeWhile isspace after_base \<noteq> []
            \<and> type_token \<noteq> []
            \<and> takeWhile isspace after_type \<noteq> []
            \<and> stat_name \<noteq> []
            \<and> startswith after_ws3 ''(''
         then Some (type_token, stat_name)
         else None)"

text \<open>
  The language of the pattern, with its two groups: \<^verbatim>\<open>base\<close>, whitespace, a type token
  without whitespace, whitespace, a name of letters, digits and underscores, optional
  whitespace, an opening parenthesis, and any rest.
\<close>

definition BASE_STAT_PATTERN_groups :: "string \<Rightarrow> string \<Rightarrow> string \<Rightarrow> bool" where
  "BASE_STAT_PATTERN_groups s type_token stat_name =
     (\<exists>ws1 ws2 ws3 rest.
        s = ''base'' @ ws1 @ type_token @ ws2 @ stat_name @ ws3 @ ''('' @ rest
        \<and> ws1 \<noteq> [] \<and> (\<forall>c \<in> set ws1. isspace c)
        \<and> type_token \<noteq> [] \<and> (\<forall>c \<in> set type_token. \<not> isspace c)
        \<and> ws2 \<noteq> [] \<and> (\<forall>c \<in> set ws2. isspace c)
        \<and> stat_name \<noteq> [] \<and> (\<forall>c \<in> set stat_name. is_word_char c)
        \<and> (\<forall>c \<in> set ws3. isspace c))"

text \<open>
  \<^verbatim>\<open>
  def parse_stats_file(path: Path) -> Dict[str, StatType]:
      stats: Dict[str, StatType] = {}
      for line in path.read_text(encoding="utf-8").splitlines():
          stripped = line.strip()
          if not stripped.startswith("base "):
              continue
          match = BASE_STAT_PATTERN.match(stripped)
          if not match:
              continue
          type_token, stat_name = match.groups()
          stats[stat_name] = parse_type(type_token)
      return stats
  \<close>
  The loop is \<open>parse_stats_lines\<close>, on the lines still to read and the dictionary built so
  far. \<open>parse_stats_file\<close> takes the text that \<^verbatim>\<open>read_text\<close> returns.
\<close>

fun parse_stats_lines :: "string list \<Rightarrow> stats_schema \<Rightarrow> stats_schema" where
  "parse_stats_lines [] stats = stats"
| "parse_stats_lines (line # lines) stats =
     (let stripped = strip line in
      if \<not> startswith stripped ''base '' then parse_stats_lines lines stats
      else
        case BASE_STAT_PATTERN_match stripped of
          None \<Rightarrow> parse_stats_lines lines stats
        | Some (type_token, stat_name) \<Rightarrow>
            parse_stats_lines lines (stats(stat_name \<mapsto> parse_type type_token)))"

declare parse_stats_lines.simps(2) [simp del]

definition parse_stats_file :: "string \<Rightarrow> stats_schema" where
  "parse_stats_file text = parse_stats_lines (splitlines text) Map.empty"

text \<open>
  A line declares a statistic when, stripped, it starts with \<^verbatim>\<open>base\<close> and a space and is in
  the language of the pattern, with the type token and the name as the groups.
\<close>

definition declares :: "string \<Rightarrow> string \<Rightarrow> string \<Rightarrow> bool" where
  "declares line type_token stat_name =
     (startswith (strip line) ''base ''
      \<and> BASE_STAT_PATTERN_groups (strip line) type_token stat_name)"

text \<open>The two tests of the loop body on a line, as one function: what the line declares.\<close>

definition line_declaration :: "string \<Rightarrow> (string \<times> string) option" where
  "line_declaration line =
     (let stripped = strip line in
      if \<not> startswith stripped ''base '' then None else BASE_STAT_PATTERN_match stripped)"

section \<open>Located errors\<close>

text \<open>
  An error is one line of text in the source,
  \<^verbatim>\<open>f"{display_path(file_path, repo_root)}: {location}: {message}"\<close>.
  Here it is the triple the line is rendered from: the displayed file, the path stack
  that \<^verbatim>\<open>format_path\<close> joins into the location, and the message with the values it
  interpolates.
\<close>

datatype message =
    Expected_object_for_resource string
  | Missing_or_invalid_resource_id
  | Unknown_resource_id
  | Missing_or_invalid_stats string
  | Unknown_stat
  | Expected_value_field
  | Expected_array string
  | Expected_string string
  | Expected_bool string
  | Expected_number string
  | Expected_photo_object string
  | Expected_url_string string
  | Expected_resource_object string
  | Expected_resource_id string json
  | Failed_to_parse_JSON string

record located_error =
  err_file :: string
  err_path :: "string list"
  err_message :: message

text \<open>The message of the resource-kind identity check.\<close>

fun is_resource_id_mismatch :: "message \<Rightarrow> bool" where
  "is_resource_id_mismatch (Expected_resource_id expected actual) = True"
| "is_resource_id_mismatch m = False"

text \<open>
  \<^verbatim>\<open>
  def format_path(path_stack: List[str]) -> str:
      return " -> ".join(path_stack) if path_stack else "<root>"
  \<close>
\<close>

fun join :: "string \<Rightarrow> string list \<Rightarrow> string" where
  "join sep [] = []"
| "join sep [s] = s"
| "join sep (s # t # ss) = s @ sep @ join sep (t # ss)"

definition format_path :: "string list \<Rightarrow> string" where
  "format_path path_stack = (if path_stack \<noteq> [] then join '' -> '' path_stack else ''<root>'')"

text \<open>
  \<^verbatim>\<open>
  def display_path(path: Path, repo_root: Path) -> str:
      try:
          return str(path.resolve().relative_to(repo_root.resolve()))
      except ValueError:
          return str(path)
  \<close>
  \<^verbatim>\<open>Path.resolve\<close> asks the file system: it makes the path absolute from the current
  directory and follows symbolic links. The file system is a parameter here, the
  function from the text of a path to the parts of the resolved path. \<^verbatim>\<open>relative_to\<close>
  raises \<^verbatim>\<open>ValueError\<close> unless the parts of the root begin the parts of the path; the
  relative path is printed with \<^verbatim>\<open>/\<close> between its parts, and as \<^verbatim>\<open>.\<close> when it has none.
\<close>

type_synonym file_system = "string \<Rightarrow> string list"

definition display_path :: "file_system \<Rightarrow> string \<Rightarrow> string \<Rightarrow> string" where
  "display_path fs path repo_root =
     (let resolved = fs path; root = fs repo_root
      in if prefix root resolved then
           (if drop (length root) resolved = [] then ''.''
            else join ''/'' (drop (length root) resolved))
         else path)"

text \<open>
  \<^verbatim>\<open>
  def add_error(errors, file_path, repo_root, path_stack, message) -> None:
      location = format_path(path_stack)
      errors.append(f"{display_path(file_path, repo_root)}: {location}: {message}")
  \<close>
\<close>

definition add_error ::
  "file_system \<Rightarrow> located_error list \<Rightarrow> string \<Rightarrow> string \<Rightarrow> string list \<Rightarrow> message
   \<Rightarrow> located_error list" where
  "add_error fs errors file_path repo_root path_stack msg =
     errors @ [\<lparr>err_file = display_path fs file_path repo_root, err_path = path_stack,
                err_message = msg\<rparr>]"

text \<open>The decimal digits of a natural number, as \<^verbatim>\<open>f"{idx}"\<close> prints them.\<close>

fun str_of_nat :: "nat \<Rightarrow> string" where
  "str_of_nat n =
     (if n < 10 then [''0123456789'' ! n]
      else str_of_nat (n div 10) @ [''0123456789'' ! (n mod 10)])"

declare str_of_nat.simps [simp del]

text \<open>\<^verbatim>\<open>f"{name}='{text}'"\<close>\<close>

definition quoted :: "string \<Rightarrow> string \<Rightarrow> string" where
  "quoted name text = name @ ''='' @ [CHR 0x27] @ text @ [CHR 0x27]"

text \<open>
  \<^verbatim>\<open>
  def resource_label(resource_obj: Dict[str, Any]) -> str:
      rid = resource_obj.get("resource_id")
      stats = resource_obj.get("stats")
      rid_text = f"resource_id='{rid}'" if isinstance(rid, str) else "resource_id<?>"
      if isinstance(stats, dict):
          stat_id = stats.get("id")
          if isinstance(stat_id, str) and stat_id:
              return f"{rid_text} (id='{stat_id}')"
      return rid_text
  \<close>
\<close>

definition resource_label :: "json \<Rightarrow> string" where
  "resource_label resource_obj =
     (let rid = dict_get resource_obj ''resource_id'';
          stats = dict_get resource_obj ''stats'';
          rid_text = (if isinstance_str rid then quoted ''resource_id'' (str_chars rid)
                      else ''resource_id<?>'');
          stat_id = dict_get stats ''id''
      in if isinstance_dict stats \<and> isinstance_str stat_id \<and> str_chars stat_id \<noteq> []
         then rid_text @ '' ('' @ quoted ''id'' (str_chars stat_id) @ '')''
         else rid_text)"

section \<open>The validation engine\<close>

definition META_STATS :: "string set" where
  "META_STATS = {''id'', ''updated_at''}"

lemma size_map_of:
  "map_of kvs key = Some v \<Longrightarrow> size v < Suc (size_list (size_prod (\<lambda>k. 0) size) kvs)"
  by (induction kvs) (auto split: if_splits)

lemma size_dict_get:
  "isinstance_dict d \<Longrightarrow> size (dict_get d key) < size d"
  by (cases d) (auto simp: dict_get_def dest: size_map_of split: option.splits)

lemma size_dict_items:
  "isinstance_dict d \<Longrightarrow> size_list (size_prod (\<lambda>k. 0) size) (dict_items d) < size d"
  by (cases d) auto

lemma size_list_elems:
  "isinstance_list v \<Longrightarrow> size_list size (list_elems v) < size v"
  by (cases v) auto

text \<open>
  \<^verbatim>\<open>validate_resource_instance\<close> and \<^verbatim>\<open>validate_value\<close>, with the loop over the statistics and
  the loop over the elements of an array as functions of their own. The error list is
  threaded: each function takes the caller's list and returns it with the errors it
  appends. The first argument is the file system that \<^verbatim>\<open>display_path\<close> reads for every
  error; the other arguments are the source's, in its order.
\<close>

function (sequential)
    validate_resource_instance ::
      "file_system \<Rightarrow> json \<Rightarrow> schema \<Rightarrow> located_error list \<Rightarrow> string \<Rightarrow> string
       \<Rightarrow> string list \<Rightarrow> located_error list"
and validate_stats_loop ::
      "file_system \<Rightarrow> (string \<times> json) list \<Rightarrow> stats_schema \<Rightarrow> schema
       \<Rightarrow> located_error list \<Rightarrow> string \<Rightarrow> string \<Rightarrow> string list \<Rightarrow> located_error list"
and validate_value ::
      "file_system \<Rightarrow> json \<Rightarrow> StatType \<Rightarrow> schema \<Rightarrow> located_error list \<Rightarrow> string
       \<Rightarrow> string \<Rightarrow> string list \<Rightarrow> located_error list"
and validate_array_loop ::
      "file_system \<Rightarrow> nat \<Rightarrow> json list \<Rightarrow> StatType \<Rightarrow> schema \<Rightarrow> located_error list
       \<Rightarrow> string \<Rightarrow> string \<Rightarrow> string list \<Rightarrow> located_error list"
where
  "validate_resource_instance fs resource_obj schema errors file_path repo_root path_stack =
     (if \<not> isinstance_dict resource_obj then
        add_error fs errors file_path repo_root path_stack
          (Expected_object_for_resource (type_name resource_obj))
      else
        let rid = dict_get resource_obj ''resource_id'' in
        if \<not> isinstance_str rid \<or> str_chars rid = [] then
          add_error fs errors file_path repo_root path_stack Missing_or_invalid_resource_id
        else
          case schema (str_chars rid) of
            None \<Rightarrow>
              add_error fs errors file_path repo_root
                (path_stack @ [quoted ''resource_id'' (str_chars rid)]) Unknown_resource_id
          | Some stats_schema \<Rightarrow>
              let stats = dict_get resource_obj ''stats'' in
              if \<not> isinstance_dict stats then
                add_error fs errors file_path repo_root (path_stack @ [resource_label resource_obj])
                  (Missing_or_invalid_stats (type_name stats))
              else
                validate_stats_loop fs (dict_items stats) stats_schema schema errors file_path repo_root
                  (path_stack @ [resource_label resource_obj]))"
| "validate_stats_loop fs [] stats_schema schema errors file_path repo_root current_stack = errors"
| "validate_stats_loop fs ((stat_name, stat_value) # rest) stats_schema schema errors file_path repo_root
       current_stack =
     (if stat_name \<in> META_STATS then
        validate_stats_loop fs rest stats_schema schema errors file_path repo_root current_stack
      else
        case stats_schema stat_name of
          None \<Rightarrow>
            validate_stats_loop fs rest stats_schema schema
              (add_error fs errors file_path repo_root (current_stack @ [''stats.'' @ stat_name]) Unknown_stat)
              file_path repo_root current_stack
        | Some stat_type \<Rightarrow>
            if \<not> isinstance_dict stat_value \<or> \<not> dict_contains stat_value ''value'' then
              validate_stats_loop fs rest stats_schema schema
                (add_error fs errors file_path repo_root (current_stack @ [''stats.'' @ stat_name])
                   Expected_value_field)
                file_path repo_root current_stack
            else
              validate_stats_loop fs rest stats_schema schema
                (validate_value fs (dict_get stat_value ''value'') stat_type schema errors file_path repo_root
                   (current_stack @ [''stats.'' @ stat_name @ ''.value'']))
                file_path repo_root current_stack)"
| "validate_value fs value stat_type schema errors file_path repo_root path_stack =
     (if value = JNull then errors
      else if is_array stat_type then
        (if \<not> isinstance_list value then
           add_error fs errors file_path repo_root path_stack (Expected_array (type_name value))
         else
           validate_array_loop fs 0 (list_elems value) (element_type stat_type) schema errors
             file_path repo_root path_stack)
      else if kind stat_type = ''unknown'' then errors
      else if kind stat_type = ''string'' then
        (if \<not> isinstance_str value then
           add_error fs errors file_path repo_root path_stack (Expected_string (type_name value))
         else errors)
      else if kind stat_type = ''bool'' then
        (if \<not> isinstance_bool value then
           add_error fs errors file_path repo_root path_stack (Expected_bool (type_name value))
         else errors)
      else if kind stat_type = ''integer'' then
        (if isinstance_bool value \<or> \<not> (isinstance_int value \<or> isinstance_float value) then
           add_error fs errors file_path repo_root path_stack (Expected_number (type_name value))
         else errors)
      else if kind stat_type = ''photo'' then
        (if \<not> isinstance_dict value then
           add_error fs errors file_path repo_root path_stack (Expected_photo_object (type_name value))
         else if dict_contains value ''url'' \<and> \<not> isinstance_str (dict_get value ''url'') then
           add_error fs errors file_path repo_root (path_stack @ [''url''])
             (Expected_url_string (type_name (dict_get value ''url'')))
         else errors)
      else if kind stat_type = ''resource'' then
        (if \<not> isinstance_dict value then
           add_error fs errors file_path repo_root path_stack (Expected_resource_object (type_name value))
         else
           let actual = dict_get value ''resource_id'' in
           validate_resource_instance fs value schema
             (case resource_type stat_type of
                None \<Rightarrow> errors
              | Some expected \<Rightarrow>
                  if expected \<noteq> [] \<and> actual \<noteq> JStr expected then
                    add_error fs errors file_path repo_root path_stack (Expected_resource_id expected actual)
                  else errors)
             file_path repo_root path_stack)
      else errors)"
| "validate_array_loop fs idx [] elem_type schema errors file_path repo_root path_stack = errors"
| "validate_array_loop fs idx (item # rest) elem_type schema errors file_path repo_root path_stack =
     (if item = JNull \<and> kind elem_type = ''resource'' then
        validate_array_loop fs (Suc idx) rest elem_type schema errors file_path repo_root path_stack
      else
        validate_array_loop fs (Suc idx) rest elem_type schema
          (validate_value fs item elem_type schema errors file_path repo_root
             (path_stack @ [''['' @ str_of_nat idx @ '']'']))
          file_path repo_root path_stack)"
  by pat_completeness auto


termination
proof (relation "measure (\<lambda>x. case x of
           Inl (Inl (fs, v, _)) \<Rightarrow> 2 * size v
         | Inl (Inr (fs, kvs, _)) \<Rightarrow> 2 * size_list (size_prod (\<lambda>k. 0) size) kvs
         | Inr (Inl (fs, v, _)) \<Rightarrow> 2 * size v + 1
         | Inr (Inr (fs, idx, vs, _)) \<Rightarrow> 2 * size_list size vs)", goal_cases)
  case 1
  show ?case by simp
next
  case (2 fs resource_obj schema errors file_path repo_root path_stack x y z)
  then show ?case
    using size_dict_get [of resource_obj "''stats''"] size_dict_items [of "dict_get resource_obj ''stats''"]
    by simp
next
  case 3 then show ?case by simp
next
  case 4 then show ?case by simp
next
  case 5 then show ?case by simp
next
  case (6 fs stat_name stat_value)
  then show ?case
    using size_dict_get [of stat_value "''value''"] by simp
next
  case 7 then show ?case by simp
next
  case (8 fs "value")
  then show ?case using size_list_elems [of "value"] by simp
next
  case 9 then show ?case by simp
next
  case 10 then show ?case by simp
next
  case 11 then show ?case by simp
next
  case 12 then show ?case by simp
qed

declare validate_resource_instance.simps [simp del]
declare validate_value.simps [simp del]

lemmas validate_induct =
  validate_resource_instance_validate_stats_loop_validate_value_validate_array_loop.induct

section \<open>The run over the instance files\<close>

text \<open>
  The loop of \<^verbatim>\<open>main\<close> over the instance files. Each file comes with what \<^verbatim>\<open>read_json\<close>
  made of it: the text of the exception it raised, or the decoded document.
  \<^verbatim>\<open>
  for path in instance_files:
      try:
          data = read_json(path)
      except Exception as exc:
          add_error(errors, path, repo_root, [], f"Failed to parse JSON: {exc}")
          continue
      validate_resource_instance(data, schema, errors, path, repo_root, [])
  \<close>
\<close>

fun validate_instance_files ::
  "file_system \<Rightarrow> string \<Rightarrow> (string \<times> (string + json)) list \<Rightarrow> schema \<Rightarrow> located_error list
   \<Rightarrow> located_error list" where
  "validate_instance_files fs repo_root [] schema errors = errors"
| "validate_instance_files fs repo_root ((path, Inl exc) # files) schema errors =
     validate_instance_files fs repo_root files schema
       (add_error fs errors path repo_root [] (Failed_to_parse_JSON exc))"
| "validate_instance_files fs repo_root ((path, Inr data) # files) schema errors =
     validate_instance_files fs repo_root files schema
       (validate_resource_instance fs data schema errors path repo_root [])"

section \<open>The engine without the fast path\<close>

text \<open>
  The source skips a \<^verbatim>\<open>null\<close> array element itself when the element kind is
  \<^verbatim>\<open>resource\<close>:
  \<^verbatim>\<open>
  if item is None and element_type.kind == "resource":
      continue
  \<close>
  The engine below is the source with these two lines removed: its array loop calls the
  value check on every element, so that a \<^verbatim>\<open>null\<close> element meets the generic \<^verbatim>\<open>null\<close> rule
  of the value check. Everything else is as above.
\<close>

function (sequential)
    validate_resource_instance_generic ::
      "file_system \<Rightarrow> json \<Rightarrow> schema \<Rightarrow> located_error list \<Rightarrow> string \<Rightarrow> string
       \<Rightarrow> string list \<Rightarrow> located_error list"
and validate_stats_loop_generic ::
      "file_system \<Rightarrow> (string \<times> json) list \<Rightarrow> stats_schema \<Rightarrow> schema
       \<Rightarrow> located_error list \<Rightarrow> string \<Rightarrow> string \<Rightarrow> string list \<Rightarrow> located_error list"
and validate_value_generic ::
      "file_system \<Rightarrow> json \<Rightarrow> StatType \<Rightarrow> schema \<Rightarrow> located_error list \<Rightarrow> string
       \<Rightarrow> string \<Rightarrow> string list \<Rightarrow> located_error list"
and validate_array_loop_generic ::
      "file_system \<Rightarrow> nat \<Rightarrow> json list \<Rightarrow> StatType \<Rightarrow> schema \<Rightarrow> located_error list
       \<Rightarrow> string \<Rightarrow> string \<Rightarrow> string list \<Rightarrow> located_error list"
where
  "validate_resource_instance_generic fs resource_obj schema errors file_path repo_root path_stack =
     (if \<not> isinstance_dict resource_obj then
        add_error fs errors file_path repo_root path_stack
          (Expected_object_for_resource (type_name resource_obj))
      else
        let rid = dict_get resource_obj ''resource_id'' in
        if \<not> isinstance_str rid \<or> str_chars rid = [] then
          add_error fs errors file_path repo_root path_stack Missing_or_invalid_resource_id
        else
          case schema (str_chars rid) of
            None \<Rightarrow>
              add_error fs errors file_path repo_root
                (path_stack @ [quoted ''resource_id'' (str_chars rid)]) Unknown_resource_id
          | Some stats_schema \<Rightarrow>
              let stats = dict_get resource_obj ''stats'' in
              if \<not> isinstance_dict stats then
                add_error fs errors file_path repo_root (path_stack @ [resource_label resource_obj])
                  (Missing_or_invalid_stats (type_name stats))
              else
                validate_stats_loop_generic fs (dict_items stats) stats_schema schema errors file_path repo_root
                  (path_stack @ [resource_label resource_obj]))"
| "validate_stats_loop_generic fs [] stats_schema schema errors file_path repo_root current_stack = errors"
| "validate_stats_loop_generic fs ((stat_name, stat_value) # rest) stats_schema schema errors file_path repo_root
       current_stack =
     (if stat_name \<in> META_STATS then
        validate_stats_loop_generic fs rest stats_schema schema errors file_path repo_root current_stack
      else
        case stats_schema stat_name of
          None \<Rightarrow>
            validate_stats_loop_generic fs rest stats_schema schema
              (add_error fs errors file_path repo_root (current_stack @ [''stats.'' @ stat_name]) Unknown_stat)
              file_path repo_root current_stack
        | Some stat_type \<Rightarrow>
            if \<not> isinstance_dict stat_value \<or> \<not> dict_contains stat_value ''value'' then
              validate_stats_loop_generic fs rest stats_schema schema
                (add_error fs errors file_path repo_root (current_stack @ [''stats.'' @ stat_name])
                   Expected_value_field)
                file_path repo_root current_stack
            else
              validate_stats_loop_generic fs rest stats_schema schema
                (validate_value_generic fs (dict_get stat_value ''value'') stat_type schema errors file_path repo_root
                   (current_stack @ [''stats.'' @ stat_name @ ''.value'']))
                file_path repo_root current_stack)"
| "validate_value_generic fs value stat_type schema errors file_path repo_root path_stack =
     (if value = JNull then errors
      else if is_array stat_type then
        (if \<not> isinstance_list value then
           add_error fs errors file_path repo_root path_stack (Expected_array (type_name value))
         else
           validate_array_loop_generic fs 0 (list_elems value) (element_type stat_type) schema errors
             file_path repo_root path_stack)
      else if kind stat_type = ''unknown'' then errors
      else if kind stat_type = ''string'' then
        (if \<not> isinstance_str value then
           add_error fs errors file_path repo_root path_stack (Expected_string (type_name value))
         else errors)
      else if kind stat_type = ''bool'' then
        (if \<not> isinstance_bool value then
           add_error fs errors file_path repo_root path_stack (Expected_bool (type_name value))
         else errors)
      else if kind stat_type = ''integer'' then
        (if isinstance_bool value \<or> \<not> (isinstance_int value \<or> isinstance_float value) then
           add_error fs errors file_path repo_root path_stack (Expected_number (type_name value))
         else errors)
      else if kind stat_type = ''photo'' then
        (if \<not> isinstance_dict value then
           add_error fs errors file_path repo_root path_stack (Expected_photo_object (type_name value))
         else if dict_contains value ''url'' \<and> \<not> isinstance_str (dict_get value ''url'') then
           add_error fs errors file_path repo_root (path_stack @ [''url''])
             (Expected_url_string (type_name (dict_get value ''url'')))
         else errors)
      else if kind stat_type = ''resource'' then
        (if \<not> isinstance_dict value then
           add_error fs errors file_path repo_root path_stack (Expected_resource_object (type_name value))
         else
           let actual = dict_get value ''resource_id'' in
           validate_resource_instance_generic fs value schema
             (case resource_type stat_type of
                None \<Rightarrow> errors
              | Some expected \<Rightarrow>
                  if expected \<noteq> [] \<and> actual \<noteq> JStr expected then
                    add_error fs errors file_path repo_root path_stack (Expected_resource_id expected actual)
                  else errors)
             file_path repo_root path_stack)
      else errors)"
| "validate_array_loop_generic fs idx [] elem_type schema errors file_path repo_root path_stack = errors"
| "validate_array_loop_generic fs idx (item # rest) elem_type schema errors file_path repo_root path_stack =
     validate_array_loop_generic fs (Suc idx) rest elem_type schema
       (validate_value_generic fs item elem_type schema errors file_path repo_root
          (path_stack @ [''['' @ str_of_nat idx @ '']'']))
       file_path repo_root path_stack"
  by pat_completeness auto


termination
proof (relation "measure (\<lambda>x. case x of
           Inl (Inl (fs, v, _)) \<Rightarrow> 2 * size v
         | Inl (Inr (fs, kvs, _)) \<Rightarrow> 2 * size_list (size_prod (\<lambda>k. 0) size) kvs
         | Inr (Inl (fs, v, _)) \<Rightarrow> 2 * size v + 1
         | Inr (Inr (fs, idx, vs, _)) \<Rightarrow> 2 * size_list size vs)", goal_cases)
  case 1
  show ?case by simp
next
  case (2 fs resource_obj schema errors file_path repo_root path_stack x y z)
  then show ?case
    using size_dict_get [of resource_obj "''stats''"] size_dict_items [of "dict_get resource_obj ''stats''"]
    by simp
next
  case 3 then show ?case by simp
next
  case 4 then show ?case by simp
next
  case 5 then show ?case by simp
next
  case (6 fs stat_name stat_value)
  then show ?case
    using size_dict_get [of stat_value "''value''"] by simp
next
  case 7 then show ?case by simp
next
  case (8 fs "value")
  then show ?case using size_list_elems [of "value"] by simp
next
  case 9 then show ?case by simp
next
  case 10 then show ?case by simp
next
  case 11 then show ?case by simp
qed


declare validate_resource_instance_generic.simps [simp del]
declare validate_value_generic.simps [simp del]

section \<open>The engine on an explicit state\<close>






section \<open>A file system for the examples\<close>

text \<open>
  The examples below run in a working directory outside the repository \<^verbatim>\<open>/repo\<close>: the
  repository root resolves to itself and a relative file name to a file below \<^verbatim>\<open>/tmp\<close>. A
  file is then displayed under the name it was given.
\<close>

definition example_fs :: file_system where
  "example_fs path = (if path = ''/repo'' then [''/'', ''repo''] else [''/'', ''tmp'', path])"


lemma display_path_example_fs:
  "path \<noteq> ''/repo'' \<Longrightarrow> display_path example_fs path ''/repo'' = path"
  by (simp add: display_path_def example_fs_def)

section \<open>Properties of the type grammar\<close>

lemma parse_type_is_array: "is_array (parse_type type_token) = endswith type_token ''[]''"
  by (simp add: parse_type_def Let_def)

text \<open>
  C6. For every type token that ends in the array marker \<^verbatim>\<open>[]\<close>, the parsed descriptor
  is an array descriptor, and its element type is not, with the same kind and the same
  resource kind. Deriving the element type builds a new descriptor from the fields of the
  old one: descriptors are values, and the parsed descriptor is the same before and after.
\<close>

theorem parse_type_array_element_type:
  "is_array (parse_type (core @ ''[]''))
   \<and> \<not> is_array (element_type (parse_type (core @ ''[]'')))
   \<and> kind (element_type (parse_type (core @ ''[]''))) = kind (parse_type (core @ ''[]''))
   \<and> resource_type (element_type (parse_type (core @ ''[]'')))
       = resource_type (parse_type (core @ ''[]''))"
  by (simp add: parse_type_is_array element_type_def endswith_def)

theorem parse_type_array_element_type_witness:
  "parse_type ''resource<sword>[]''
     = \<lparr>kind = ''resource'', is_array = True, resource_type = Some ''sword''\<rparr>
   \<and> element_type (parse_type ''resource<sword>[]'')
     = \<lparr>kind = ''resource'', is_array = False, resource_type = Some ''sword''\<rparr>"
proof -
  have p: "parse_type ''resource<sword>[]''
       = \<lparr>kind = ''resource'', is_array = True, resource_type = Some ''sword''\<rparr>"
    by (simp add: parse_type_def endswith_def startswith_def slice_to_end_def)
  from parse_type_array_element_type [of "''resource<sword>''"] p show ?thesis
    by (simp add: element_type_def)
qed

section \<open>Errors are only appended\<close>

text \<open>
  Every function of the engine returns the error list it was given, followed by the
  errors it emits, and what it emits does not depend on the list it was given.
\<close>

lemma validate_append_all:
  fixes d1 d2 d3 d4 :: "located_error list"
  shows "(\<forall>e. validate_resource_instance fs obj schema e f rr p
          = e @ validate_resource_instance fs obj schema [] f rr p)"
    and "(\<forall>e. validate_stats_loop fs kvs ss schema' e f' rr' p'
          = e @ validate_stats_loop fs kvs ss schema' [] f' rr' p')"
    and "(\<forall>e. validate_value fs v t schema'' e f'' rr'' p''
          = e @ validate_value fs v t schema'' [] f'' rr'' p'')"
    and "(\<forall>e. validate_array_loop fs idx vs et schema3 e f3 rr3 p3
          = e @ validate_array_loop fs idx vs et schema3 [] f3 rr3 p3)"
proof (induction fs obj schema d1 f rr p
         and fs kvs ss schema' d2 f' rr' p'
         and fs v t schema'' d3 f'' rr'' p''
         and fs idx vs et schema3 d4 f3 rr3 p3
       rule: validate_induct)
  case (1 fs resource_obj schema d file_path repo_root path_stack)
  show ?case
  proof (intro allI)
    fix e
    have loop: "validate_stats_loop fs (dict_items (dict_get resource_obj ''stats'')) stats_schema
                  schema e file_path repo_root (path_stack @ [resource_label resource_obj])
              = e @ validate_stats_loop fs (dict_items (dict_get resource_obj ''stats'')) stats_schema
                  schema [] file_path repo_root (path_stack @ [resource_label resource_obj])"
      if "isinstance_dict resource_obj"
         "\<not> (\<not> isinstance_str (dict_get resource_obj ''resource_id'')
             \<or> str_chars (dict_get resource_obj ''resource_id'') = [])"
         "schema (str_chars (dict_get resource_obj ''resource_id'')) = Some stats_schema"
         "isinstance_dict (dict_get resource_obj ''stats'')"
      for stats_schema
      using 1 [of "dict_get resource_obj ''resource_id''" stats_schema
                  "dict_get resource_obj ''stats''"] that
      by blast
    show "validate_resource_instance fs resource_obj schema e file_path repo_root path_stack
          = e @ validate_resource_instance fs resource_obj schema [] file_path repo_root path_stack"
      using loop
      by (simp add: validate_resource_instance.simps [of _ resource_obj schema] add_error_def Let_def
               split: option.splits)
  qed
next
  case (2 fs stats_schema schema d file_path repo_root current_stack)
  show ?case by simp
next
  case (3 fs stat_name stat_value rest stats_schema schema d file_path repo_root current_stack)
  show ?case
  proof (intro allI)
    fix e
    let ?loop = "\<lambda>e. validate_stats_loop fs rest stats_schema schema e file_path repo_root current_stack"
    show "validate_stats_loop fs ((stat_name, stat_value) # rest) stats_schema schema e file_path repo_root
            current_stack
          = e @ validate_stats_loop fs ((stat_name, stat_value) # rest) stats_schema schema []
                  file_path repo_root current_stack"
    proof (cases "stat_name \<in> META_STATS")
      case True
      have rest: "?loop e' = e' @ ?loop []" for e'
        using 3(1) [OF True] by blast
      from True show ?thesis using rest [of e] by simp
    next
      case False
      show ?thesis
      proof (cases "stats_schema stat_name")
        case None
        have rest: "?loop e' = e' @ ?loop []" for e'
          using 3(2) [OF False None] by blast
        from False None show ?thesis
          using rest [of "e @ [x]" for x] rest [of "[x]" for x]
          by (simp add: add_error_def)
      next
        case (Some stat_type)
        show ?thesis
        proof (cases "\<not> isinstance_dict stat_value \<or> \<not> dict_contains stat_value ''value''")
          case True
          have rest: "?loop e' = e' @ ?loop []" for e'
            using 3(3) [OF False Some True] by blast
          from False Some True show ?thesis
            using rest [of "e @ [x]" for x] rest [of "[x]" for x]
            by (simp add: add_error_def)
        next
          case nested: False
          let ?val = "\<lambda>e. validate_value fs (dict_get stat_value ''value'') stat_type schema e
                          file_path repo_root (current_stack @ [''stats.'' @ stat_name @ ''.value''])"
          have rest: "?loop e' = e' @ ?loop []" for e'
            using 3(5) [OF False Some nested] by blast
          have val: "?val e = e @ ?val []"
            using 3(4) [OF False Some nested] by blast
          from False Some nested show ?thesis
            using rest [of "?val e"] rest [of "?val []"] val by simp
        qed
      qed
    qed
  qed
next
  case (4 fs "value" stat_type schema d file_path repo_root path_stack)
  show ?case
  proof (intro allI)
    fix e
    have arr: "validate_array_loop fs 0 (list_elems value) (element_type stat_type) schema e
                 file_path repo_root path_stack
             = e @ validate_array_loop fs 0 (list_elems value) (element_type stat_type) schema []
                 file_path repo_root path_stack"
      if "value \<noteq> JNull" "is_array stat_type" "isinstance_list value"
      using 4(1) that by blast
    have res: "validate_resource_instance fs value schema e' file_path repo_root path_stack
             = e' @ validate_resource_instance fs value schema [] file_path repo_root path_stack"
      if "value \<noteq> JNull" "\<not> is_array stat_type" "kind stat_type = ''resource''"
         "isinstance_dict value"
      for e'
    proof -
      from that(3) have "kind stat_type \<noteq> ''unknown''" "kind stat_type \<noteq> ''string''"
        "kind stat_type \<noteq> ''bool''" "kind stat_type \<noteq> ''integer''"
        "kind stat_type \<noteq> ''photo''"
        by simp_all
      with 4(2) [of "dict_get value ''resource_id''"] that show ?thesis
        by blast
    qed
    show "validate_value fs value stat_type schema e file_path repo_root path_stack
          = e @ validate_value fs value stat_type schema [] file_path repo_root path_stack"
      using arr res [of "e @ [x]" for x] res [of "[x]" for x] res [of e]
      by (simp add: validate_value.simps [of _ "value" stat_type schema] add_error_def Let_def
               split: option.splits)
  qed
next
  case (5 fs idx elem_type schema d file_path repo_root path_stack)
  show ?case by simp
next
  case (6 fs idx item rest elem_type schema d file_path repo_root path_stack)
  show ?case
  proof (intro allI)
    fix e
    let ?loop = "\<lambda>e. validate_array_loop fs (Suc idx) rest elem_type schema e file_path repo_root path_stack"
    let ?val = "\<lambda>e. validate_value fs item elem_type schema e file_path repo_root
                    (path_stack @ [''['' @ str_of_nat idx @ '']''])"
    show "validate_array_loop fs idx (item # rest) elem_type schema e file_path repo_root path_stack
          = e @ validate_array_loop fs idx (item # rest) elem_type schema [] file_path repo_root path_stack"
    proof (cases "item = JNull \<and> kind elem_type = ''resource''")
      case True
      have rest: "?loop e' = e' @ ?loop []" for e'
        using 6(1) [OF True] by blast
      from True show ?thesis using rest [of e] by simp
    next
      case False
      have rest: "?loop e' = e' @ ?loop []" for e'
        using 6(3) [OF False] by blast
      have val: "?val e = e @ ?val []"
        using 6(2) [OF False] by blast
      have unfold: "validate_array_loop fs idx (item # rest) elem_type schema e' file_path repo_root path_stack
                    = ?loop (?val e')" for e'
        using False by (simp only: validate_array_loop.simps if_False)
      show ?thesis
        unfolding unfold using rest [of "?val e"] rest [of "?val []"] val by simp
    qed
  qed
qed


lemma validate_resource_instance_append:
  "validate_resource_instance fs obj schema errors f rr p
   = errors @ validate_resource_instance fs obj schema [] f rr p"
  using validate_append_all(1) by blast


lemma validate_stats_loop_append:
  "validate_stats_loop fs kvs ss schema errors f rr p = errors @ validate_stats_loop fs kvs ss schema [] f rr p"
  using validate_append_all(2) by blast

lemma validate_array_loop_append:
  "validate_array_loop fs idx vs et schema errors f rr p
   = errors @ validate_array_loop fs idx vs et schema [] f rr p"
  using validate_append_all(4) by blast

lemma validate_instance_files_append:
  "validate_instance_files fs repo_root files schema errors
   = errors @ validate_instance_files fs repo_root files schema []"
proof (induction files arbitrary: errors)
  case Nil
  show ?case by simp
next
  case (Cons entry files)
  obtain path res where entry: "entry = (path, res)" by (cases entry)
  show ?case
  proof (cases res)
    case (Inl exc)
    show ?thesis
      using Cons [of "add_error fs errors path repo_root [] (Failed_to_parse_JSON exc)"]
            Cons [of "add_error fs [] path repo_root [] (Failed_to_parse_JSON exc)"]
      by (simp add: entry Inl add_error_def)
  next
    case (Inr data)
    show ?thesis
      using Cons [of "validate_resource_instance fs data schema errors path repo_root []"]
            Cons [of "validate_resource_instance fs data schema [] path repo_root []"]
            validate_resource_instance_append [of _ data schema errors path repo_root "[]"]
      by (simp add: entry Inr)
  qed
qed

section \<open>Value checking\<close>

text \<open>
  C2. Checking the value \<^verbatim>\<open>null\<close> returns the error list unchanged, whatever the type
  descriptor (array, resource, primitive or unknown), the registry and the path; the first
  test of the value check ends it. A \<^verbatim>\<open>null\<close> element of an array adds nothing either:
  the loop goes on to the next element with the same error list.
\<close>

theorem validate_value_null:
  "validate_value fs JNull stat_type schema errors file_path repo_root path_stack = errors
   \<and> validate_array_loop fs idx (JNull # rest) elem_type schema errors file_path repo_root path_stack
       = validate_array_loop fs (Suc idx) rest elem_type schema errors file_path repo_root path_stack"
  by (simp add: validate_value.simps [of _ JNull])

text \<open>
  C10. A statistic declared \<^verbatim>\<open>integer\<close> accepts every numeric value that is not a boolean:
  an \<^verbatim>\<open>int\<close> or a \<^verbatim>\<open>float\<close>, integral or not. The check looks at the type of the value only.
\<close>

theorem integer_accepts_non_integral:
  assumes "kind stat_type = ''integer''"
      and "\<not> is_array stat_type"
      and "isinstance_int v \<or> isinstance_float v"
      and "\<not> isinstance_bool v"
  shows "validate_value fs v stat_type schema errors file_path repo_root path_stack = errors"
  using assms by (auto simp add: validate_value.simps [of _ v])

theorem integer_accepts_non_integral_witness:
  "kind (parse_type ''integer'') = ''integer'' \<and> \<not> is_array (parse_type ''integer'')
   \<and> validate_value example_fs (JFloat (Finite 3 (- 1))) (parse_type ''integer'') Map.empty [] ''f.json'' ''/repo''
         [''stats.hp.value''] = []"
proof -
  have k: "kind (parse_type ''integer'') = ''integer''"
    by (simp add: parse_type_def endswith_def startswith_def)
  have a: "\<not> is_array (parse_type ''integer'')"
    by (simp add: parse_type_def endswith_def startswith_def)
  have n: "isinstance_int (JFloat (Finite 3 (- 1))) \<or> isinstance_float (JFloat (Finite 3 (- 1)))"
    by simp
  have b: "\<not> isinstance_bool (JFloat (Finite 3 (- 1)))" by simp
  from integer_accepts_non_integral [OF k a n b] k a show ?thesis by simp
qed

section \<open>Documents of an unknown resource kind\<close>

text \<open>
  C3. A document object whose \<^verbatim>\<open>resource_id\<close> is a non-empty string without a schema in the
  registry adds exactly one error, the unknown \<^verbatim>\<open>resource_id\<close>, whatever its \<^verbatim>\<open>stats\<close> hold:
  no statistic is looked at. The run goes on: the files after it are validated, and add
  the errors they add on their own.
\<close>

theorem unknown_resource_id_single_error:
  assumes "dict_get (JObj kvs) ''resource_id'' = JStr rid"
      and "rid \<noteq> []"
      and "schema rid = None"
  shows "validate_resource_instance fs (JObj kvs) schema errors file_path repo_root path_stack
         = errors @ [\<lparr>err_file = display_path fs file_path repo_root,
                       err_path = path_stack @ [quoted ''resource_id'' rid],
                       err_message = Unknown_resource_id\<rparr>]
       \<and> validate_instance_files fs repo_root ((file_path, Inr (JObj kvs)) # files) schema errors
         = errors @ [\<lparr>err_file = display_path fs file_path repo_root,
                       err_path = [quoted ''resource_id'' rid],
                       err_message = Unknown_resource_id\<rparr>]
             @ validate_instance_files fs repo_root files schema []"
proof -
  have one: "validate_resource_instance fs (JObj kvs) schema errors' file_path repo_root p
         = errors' @ [\<lparr>err_file = display_path fs file_path repo_root,
                       err_path = p @ [quoted ''resource_id'' rid],
                       err_message = Unknown_resource_id\<rparr>]" for errors' p
    using assms by (simp add: validate_resource_instance.simps [of _ "JObj kvs"] add_error_def)
  show ?thesis
    using one [of errors path_stack] one [of errors "[]"]
      validate_instance_files_append [of _ _ files schema "errors @ [x]" for x]
    by simp
qed

theorem unknown_resource_id_single_error_witness:
  "validate_instance_files example_fs ''/repo''
     [(''a.json'', Inr (JObj [(''resource_id'', JStr ''axe''),
                             (''stats'', JObj [(''hp'', JObj [(''value'', JBool True)])])])),
      (''b.json'', Inr (JInt 3))]
     (Map.empty(''orc'' \<mapsto> Map.empty(''hp'' \<mapsto> parse_type ''integer''))) []
   = [\<lparr>err_file = ''a.json'', err_path = [quoted ''resource_id'' ''axe''],
       err_message = Unknown_resource_id\<rparr>,
      \<lparr>err_file = ''b.json'', err_path = [],
       err_message = Expected_object_for_resource ''int''\<rparr>]"
proof -
  have a: "dict_get (JObj [(''resource_id'', JStr ''axe''),
                             (''stats'', JObj [(''hp'', JObj [(''value'', JBool True)])])])
             ''resource_id'' = JStr ''axe''"
    by (simp add: dict_get_def)
  have b: "''axe'' \<noteq> []" by simp
  have c: "(Map.empty(''orc'' \<mapsto> Map.empty(''hp'' \<mapsto> parse_type ''integer''))) ''axe'' = None"
    by simp
  show ?thesis
    using unknown_resource_id_single_error
            [where kvs = "[(''resource_id'', JStr ''axe''),
                           (''stats'', JObj [(''hp'', JObj [(''value'', JBool True)])])]"
               and rid = "''axe''"
               and schema = "Map.empty(''orc'' \<mapsto> Map.empty(''hp'' \<mapsto> parse_type ''integer''))"
               and errors = "[]" and file_path = "''a.json''" and fs = example_fs
               and repo_root = "''/repo''" and path_stack = "[]"
               and files = "[(''b.json'', Inr (JInt 3))]"]
          a b c
    by (simp add: validate_resource_instance.simps [of _ "JInt 3"] add_error_def
          display_path_example_fs)
qed

section \<open>Where errors are located\<close>

text \<open>
  Every error a function of the engine emits lies at or below the path it was called with.
\<close>

lemma validate_paths_all:
  fixes d1 d2 d3 d4 :: "located_error list"
  shows "\<forall>e \<in> set (validate_resource_instance fs obj schema [] f rr p). prefix p (err_path e)"
    and "\<forall>e \<in> set (validate_stats_loop fs kvs ss schema' [] f' rr' p'). prefix p' (err_path e)"
    and "\<forall>e \<in> set (validate_value fs v t schema'' [] f'' rr'' p''). prefix p'' (err_path e)"
    and "\<forall>e \<in> set (validate_array_loop fs idx vs et schema3 [] f3 rr3 p3). prefix p3 (err_path e)"
proof (induction fs obj schema d1 f rr p
         and fs kvs ss schema' d2 f' rr' p'
         and fs v t schema'' d3 f'' rr'' p''
         and fs idx vs et schema3 d4 f3 rr3 p3
       rule: validate_induct)
  case (1 fs resource_obj schema d file_path repo_root path_stack)
  have loop: "\<forall>e \<in> set (validate_stats_loop fs (dict_items (dict_get resource_obj ''stats''))
                  stats_schema schema [] file_path repo_root (path_stack @ [resource_label resource_obj])).
                prefix (path_stack @ [resource_label resource_obj]) (err_path e)"
    if "isinstance_dict resource_obj"
       "\<not> (\<not> isinstance_str (dict_get resource_obj ''resource_id'')
           \<or> str_chars (dict_get resource_obj ''resource_id'') = [])"
       "schema (str_chars (dict_get resource_obj ''resource_id'')) = Some stats_schema"
       "isinstance_dict (dict_get resource_obj ''stats'')"
    for stats_schema
    using 1 [of "dict_get resource_obj ''resource_id''" stats_schema
                "dict_get resource_obj ''stats''"] that
    by blast
  show ?case
    using loop
    by (auto simp add: validate_resource_instance.simps [of _ resource_obj schema] add_error_def
          Let_def split: option.splits dest: append_prefixD)
next
  case (2 fs stats_schema schema d file_path repo_root current_stack)
  show ?case by simp
next
  case (3 fs stat_name stat_value rest stats_schema schema d file_path repo_root current_stack)
  let ?loop = "\<lambda>e. validate_stats_loop fs rest stats_schema schema e file_path repo_root current_stack"
  show ?case
  proof (cases "stat_name \<in> META_STATS")
    case True
    with 3(1) [OF True] show ?thesis by simp
  next
    case False
    show ?thesis
    proof (cases "stats_schema stat_name")
      case None
      from 3(2) [OF False None] False None show ?thesis
        using validate_stats_loop_append [of _ rest stats_schema schema "[x]" file_path repo_root current_stack for x]
        by (auto simp add: add_error_def)
    next
      case (Some stat_type)
      show ?thesis
      proof (cases "\<not> isinstance_dict stat_value \<or> \<not> dict_contains stat_value ''value''")
        case True
        from 3(3) [OF False Some True] False Some True show ?thesis
          using validate_stats_loop_append [of _ rest stats_schema schema "[x]" file_path repo_root current_stack for x]
          by (auto simp add: add_error_def)
      next
        case nested: False
        let ?val = "validate_value fs (dict_get stat_value ''value'') stat_type schema []
                          file_path repo_root (current_stack @ [''stats.'' @ stat_name @ ''.value''])"
        have unfold: "validate_stats_loop fs ((stat_name, stat_value) # rest) stats_schema schema []
                        file_path repo_root current_stack = ?val @ ?loop []"
          using False Some nested validate_stats_loop_append [of _ rest stats_schema schema ?val]
          by simp
        from 3(4) [OF False Some nested] 3(5) [OF False Some nested] show ?thesis
          unfolding unfold by (auto dest: append_prefixD)
      qed
    qed
  qed
next
  case (4 fs "value" stat_type schema d file_path repo_root path_stack)
  have arr: "\<forall>e \<in> set (validate_array_loop fs 0 (list_elems value) (element_type stat_type) schema []
                 file_path repo_root path_stack). prefix path_stack (err_path e)"
    if "value \<noteq> JNull" "is_array stat_type" "isinstance_list value"
    using 4(1) that by blast
  have res: "\<forall>e \<in> set (validate_resource_instance fs value schema [] file_path repo_root path_stack).
               prefix path_stack (err_path e)"
    if "value \<noteq> JNull" "\<not> is_array stat_type" "kind stat_type = ''resource''"
       "isinstance_dict value"
  proof -
    from that(3) have "kind stat_type \<noteq> ''unknown''" "kind stat_type \<noteq> ''string''"
      "kind stat_type \<noteq> ''bool''" "kind stat_type \<noteq> ''integer''"
      "kind stat_type \<noteq> ''photo''"
      by simp_all
    with 4(2) [of "dict_get value ''resource_id''"] that show ?thesis
      by blast
  qed
  show ?case
    using arr res
      validate_resource_instance_append [of _ "value" schema "[x]" file_path repo_root path_stack for x]
    by (auto simp add: validate_value.simps [of _ "value" stat_type schema] add_error_def Let_def
          split: option.splits)
next
  case (5 fs idx elem_type schema d file_path repo_root path_stack)
  show ?case by simp
next
  case (6 fs idx item rest elem_type schema d file_path repo_root path_stack)
  let ?loop = "\<lambda>e. validate_array_loop fs (Suc idx) rest elem_type schema e file_path repo_root path_stack"
  let ?val = "validate_value fs item elem_type schema [] file_path repo_root
                  (path_stack @ [''['' @ str_of_nat idx @ '']''])"
  show ?case
  proof (cases "item = JNull \<and> kind elem_type = ''resource''")
    case True
    with 6(1) [OF True] show ?thesis by simp
  next
    case False
    have "validate_array_loop fs idx (item # rest) elem_type schema [] file_path repo_root path_stack
          = ?loop ?val"
      using False by (simp only: validate_array_loop.simps if_False)
    then have unfold: "validate_array_loop fs idx (item # rest) elem_type schema [] file_path repo_root
                         path_stack = ?val @ ?loop []"
      using validate_array_loop_append [of _ "Suc idx" rest elem_type schema ?val] by simp
    from 6(2) [OF False] 6(3) [OF False] show ?thesis
      unfolding unfold by (auto dest: append_prefixD)
  qed
qed

lemma validate_stats_loop_paths:
  "e \<in> set (validate_stats_loop fs kvs ss schema [] f rr p) \<Longrightarrow> prefix p (err_path e)"
  using validate_paths_all(2) by blast

text \<open>
  Document validation emits no resource-kind mismatch at its own path: what it reports
  there is a malformed object or \<^verbatim>\<open>resource_id\<close>, everything else lies deeper.
\<close>

lemma validate_resource_instance_no_mismatch_here:
  assumes "e \<in> set (validate_resource_instance fs obj schema [] f rr p)"
  shows "\<not> (err_path e = p \<and> is_resource_id_mismatch (err_message e))"
proof
  assume here: "err_path e = p \<and> is_resource_id_mismatch (err_message e)"
  have "\<not> prefix (p @ [l]) p" for l :: string
    by (simp add: prefix_def)
  with here have "\<not> prefix (p @ [l]) (err_path e)" for l
    by simp
  with assms here show False
    by (auto simp add: validate_resource_instance.simps [of _ obj schema] add_error_def Let_def
          split: option.splits if_splits dest: validate_stats_loop_paths)
qed

section \<open>Nested resources\<close>

text \<open>
  C1. A value checked against a descriptor of kind \<^verbatim>\<open>resource\<close> that names a resource kind
  (the rule for the kind applies once the array rule has passed: the descriptor is not an
  array, as the element type of every array is), where the value is an object whose
  \<^verbatim>\<open>resource_id\<close> is not that name: the check appends one mismatch error at the current
  path, and then everything the full validation of the nested document appends, for
  instance its unknown \<^verbatim>\<open>resource_id\<close>. The mismatch is the only one at that path: the
  nested validation reports none there.
\<close>

theorem resource_kind_mismatch_then_recurse:
  assumes "kind stat_type = ''resource''"
      and "\<not> is_array stat_type"
      and "resource_type stat_type = Some expected"
      and "expected \<noteq> []"
      and "dict_get (JObj kvs) ''resource_id'' \<noteq> JStr expected"
  shows "validate_value fs (JObj kvs) stat_type schema errors file_path repo_root path_stack
         = errors
           @ [\<lparr>err_file = display_path fs file_path repo_root, err_path = path_stack,
               err_message = Expected_resource_id expected (dict_get (JObj kvs) ''resource_id'')\<rparr>]
           @ validate_resource_instance fs (JObj kvs) schema [] file_path repo_root path_stack
       \<and> (\<forall>e \<in> set (validate_resource_instance fs (JObj kvs) schema [] file_path repo_root path_stack).
            \<not> (err_path e = path_stack \<and> is_resource_id_mismatch (err_message e)))"
proof -
  have "validate_value fs (JObj kvs) stat_type schema errors file_path repo_root path_stack
        = validate_resource_instance fs (JObj kvs) schema
            (errors @ [\<lparr>err_file = display_path fs file_path repo_root, err_path = path_stack,
               err_message = Expected_resource_id expected (dict_get (JObj kvs) ''resource_id'')\<rparr>])
            file_path repo_root path_stack"
    using assms by (simp add: validate_value.simps [of _ "JObj kvs"] add_error_def)
  then show ?thesis
    using validate_resource_instance_append [of _ "JObj kvs" schema "errors @ [x]" file_path repo_root path_stack for x]
      validate_resource_instance_no_mismatch_here [of _ _ "JObj kvs" schema file_path repo_root path_stack]
    by auto
qed

theorem resource_kind_mismatch_then_recurse_witness:
  "validate_value example_fs (JObj [(''resource_id'', JStr ''axe''), (''stats'', JObj [])])
     (parse_type ''resource<sword>'') (Map.empty(''sword'' \<mapsto> Map.empty)) [] ''hero.json'' ''/repo''
     [''stats.weapon.value'']
   = [\<lparr>err_file = ''hero.json'', err_path = [''stats.weapon.value''],
       err_message = Expected_resource_id ''sword'' (JStr ''axe'')\<rparr>,
      \<lparr>err_file = ''hero.json'',
       err_path = [''stats.weapon.value'', quoted ''resource_id'' ''axe''],
       err_message = Unknown_resource_id\<rparr>]"
proof -
  have pt: "parse_type ''resource<sword>''
            = \<lparr>kind = ''resource'', is_array = False, resource_type = Some ''sword''\<rparr>"
    by (simp add: parse_type_def endswith_def startswith_def slice_to_end_def)
  show ?thesis
    using resource_kind_mismatch_then_recurse
            [where stat_type = "parse_type ''resource<sword>''" and expected = "''sword''"
               and kvs = "[(''resource_id'', JStr ''axe''), (''stats'', JObj [])]"
               and schema = "Map.empty(''sword'' \<mapsto> Map.empty)" and errors = "[]"
               and file_path = "''hero.json''" and fs = example_fs
               and repo_root = "''/repo''" and path_stack = "[''stats.weapon.value'']"]
    by (simp add: pt dict_get_def validate_resource_instance.simps [of _ "JObj kvs" for kvs]
          add_error_def display_path_example_fs)
qed

text \<open>
  C5 does not hold as the specification states it: under the descriptor parsed from
  \<^verbatim>\<open>resource<>\<close> a nested resource with a known \<^verbatim>\<open>resource_id\<close> and valid statistics yields
  no error at all, where the specification has a mismatch error for every nested resource.
\<close>

theorem empty_resource_kind_counterexample:
  "validate_value example_fs (JObj [(''resource_id'', JStr ''sword''), (''stats'', JObj [])])
     (parse_type ''resource<>'') (Map.empty(''sword'' \<mapsto> Map.empty)) [] ''hero.json'' ''/repo''
     [''stats.weapon.value'']
   = []"
proof -
  have pt: "parse_type ''resource<>'' = \<lparr>kind = ''resource'', is_array = False, resource_type = Some ''''\<rparr>"
    by (simp add: parse_type_def endswith_def startswith_def slice_to_end_def)
  show ?thesis
    by (simp add: pt validate_value.simps [of _ "JObj kvs" for kvs]
          validate_resource_instance.simps [of _ "JObj kvs" for kvs] dict_get_def)
qed

text \<open>
  C5, amended. The token \<^verbatim>\<open>resource<>\<close> parses to kind \<^verbatim>\<open>resource\<close> with the empty string
  as resource kind. Validation treats the empty resource kind as no constraint
  (\<^verbatim>\<open>if expected and actual != expected\<close>): it never compares it with a \<^verbatim>\<open>resource_id\<close>,
  every value is checked exactly as under the token \<^verbatim>\<open>resource\<close>, and an object goes
  straight to document validation with no mismatch error.
\<close>

theorem empty_resource_kind_is_no_constraint:
  "parse_type ''resource<>''
     = \<lparr>kind = ''resource'', is_array = False, resource_type = Some ''''\<rparr>
   \<and> validate_value fs v (parse_type ''resource<>'') schema errors file_path repo_root path_stack
     = validate_value fs v (parse_type ''resource'') schema errors file_path repo_root path_stack
   \<and> validate_value fs (JObj kvs) (parse_type ''resource<>'') schema errors file_path repo_root path_stack
     = validate_resource_instance fs (JObj kvs) schema errors file_path repo_root path_stack"
proof -
  have pt: "parse_type ''resource<>'' = \<lparr>kind = ''resource'', is_array = False, resource_type = Some ''''\<rparr>"
    by (simp add: parse_type_def endswith_def startswith_def slice_to_end_def)
  have pr: "parse_type ''resource'' = \<lparr>kind = ''resource'', is_array = False, resource_type = None\<rparr>"
    by (simp add: parse_type_def endswith_def startswith_def slice_to_end_def)
  show ?thesis
    unfolding pt pr
    by (simp add: validate_value.simps [of _ v] validate_value.simps [of _ "JObj kvs"])
qed

section \<open>Statistics declared integer\<close>



section \<open>The effect of validation\<close>






section \<open>The fast path for null array elements\<close>

lemma fast_path_equivalent_all:
  "validate_resource_instance_generic fs obj schema errors f rr p
     = validate_resource_instance fs obj schema errors f rr p"
  "validate_stats_loop_generic fs kvs ss schema' errors' f' rr' p'
     = validate_stats_loop fs kvs ss schema' errors' f' rr' p'"
  "validate_value_generic fs v t schema'' errors'' f'' rr'' p''
     = validate_value fs v t schema'' errors'' f'' rr'' p''"
  "validate_array_loop_generic fs idx vs et schema3 errors3 f3 rr3 p3
     = validate_array_loop fs idx vs et schema3 errors3 f3 rr3 p3"
proof (induction fs obj schema errors f rr p
         and fs kvs ss schema' errors' f' rr' p'
         and fs v t schema'' errors'' f'' rr'' p''
         and fs idx vs et schema3 errors3 f3 rr3 p3
       rule: validate_induct)
  case (1 fs resource_obj schema errors file_path repo_root path_stack)
  then show ?case
    by (simp add: validate_resource_instance.simps [of _ resource_obj schema]
          validate_resource_instance_generic.simps [of _ resource_obj schema] Let_def
          split: option.splits)
next
  case (2 fs stats_schema schema errors file_path repo_root current_stack)
  show ?case by simp
next
  case (3 fs stat_name stat_value rest stats_schema schema errors file_path repo_root current_stack)
  then show ?case
    by (simp split: option.splits)
next
  case (4 fs "value" stat_type schema errors file_path repo_root path_stack)
  then show ?case
    by (simp add: validate_value.simps [of _ "value" stat_type schema]
          validate_value_generic.simps [of _ "value" stat_type schema] Let_def)
next
  case (5 fs idx elem_type schema errors file_path repo_root path_stack)
  show ?case by simp
next
  case (6 fs idx item rest elem_type schema errors file_path repo_root path_stack)
  show ?case
  proof (cases "item = JNull \<and> kind elem_type = ''resource''")
    case True
    with 6(1) [OF True] show ?thesis
      by (simp add: validate_value_generic.simps [of _ JNull])
  next
    case False
    have "validate_array_loop fs idx (item # rest) elem_type schema errors file_path repo_root path_stack
          = validate_array_loop fs (Suc idx) rest elem_type schema
              (validate_value fs item elem_type schema errors file_path repo_root
                 (path_stack @ [''['' @ str_of_nat idx @ '']'']))
              file_path repo_root path_stack"
      using False by (simp only: validate_array_loop.simps if_False)
    with 6(2) [OF False] 6(3) [OF False] show ?thesis
      by simp
  qed
qed


text \<open>
  C8. The fast path changes no outcome. With the fast path removed, so that the array
  loop calls the generic value check on every element, the value check, the array loop
  and document validation return the same error list as the source's, for every value,
  type descriptor, registry, error list and path.
\<close>

theorem fast_path_equivalent:
  "validate_value_generic fs v stat_type schema errors file_path repo_root path_stack
     = validate_value fs v stat_type schema errors file_path repo_root path_stack
   \<and> validate_array_loop_generic fs idx vs elem_type schema errors file_path repo_root path_stack
     = validate_array_loop fs idx vs elem_type schema errors file_path repo_root path_stack
   \<and> validate_resource_instance_generic fs resource_obj schema errors file_path repo_root path_stack
     = validate_resource_instance fs resource_obj schema errors file_path repo_root path_stack"
  by (simp add: fast_path_equivalent_all)

section \<open>The schema compiler: the pattern\<close>

text \<open>
  The scanner returns the groups of a string exactly when the string is in the language
  of the pattern with these groups. So the groups are unique, and a backtracking matcher
  finds the same ones.
\<close>

lemma takeWhile_stop:
  assumes "\<forall>x \<in> set xs. P x" and "ys = [] \<or> \<not> P (hd ys)"
  shows "takeWhile P (xs @ ys) = xs" and "dropWhile P (xs @ ys) = ys"
  using assms by (cases ys; simp)+

lemma word_char_not_space: "is_word_char c \<Longrightarrow> \<not> isspace c"
  by (auto simp: is_word_char_def isspace_def)

lemma paren_not_space: "\<not> isspace CHR ''(''"
  by (simp add: isspace_def)

lemma paren_not_word_char: "\<not> is_word_char CHR ''(''"
  by (simp add: is_word_char_def)

lemma BASE_STAT_PATTERN_groups_match:
  assumes "BASE_STAT_PATTERN_groups s type_token stat_name"
  shows "BASE_STAT_PATTERN_match s = Some (type_token, stat_name)"
proof -
  from assms obtain ws1 ws2 ws3 rest where
    s: "s = ''base'' @ ws1 @ type_token @ ws2 @ stat_name @ ws3 @ ''('' @ rest"
    and ws1: "ws1 \<noteq> []" "\<forall>c \<in> set ws1. isspace c"
    and tok: "type_token \<noteq> []" "\<forall>c \<in> set type_token. \<not> isspace c"
    and ws2: "ws2 \<noteq> []" "\<forall>c \<in> set ws2. isspace c"
    and name: "stat_name \<noteq> []" "\<forall>c \<in> set stat_name. is_word_char c"
    and ws3: "\<forall>c \<in> set ws3. isspace c"
    unfolding BASE_STAT_PATTERN_groups_def by blast
  let ?r3 = "ws3 @ ''('' @ rest"
  let ?r2 = "stat_name @ ?r3"
  let ?r1 = "ws2 @ ?r2"
  let ?r0 = "type_token @ ?r1"
  have base: "startswith s ''base''" "drop (length ''base'') s = ws1 @ ?r0"
    by (simp_all add: s startswith_def)
  have "\<not> isspace (hd ?r0)"
    using tok by (cases type_token) auto
  then have 1: "takeWhile isspace (ws1 @ ?r0) = ws1" "dropWhile isspace (ws1 @ ?r0) = ?r0"
    using takeWhile_stop [of ws1 isspace ?r0] ws1 by blast+
  have "isspace (hd ?r1)"
    using ws2 by (cases ws2) auto
  then have 2: "takeWhile (\<lambda>c. \<not> isspace c) (type_token @ ?r1) = type_token"
    "dropWhile (\<lambda>c. \<not> isspace c) (type_token @ ?r1) = ?r1"
    using takeWhile_stop [of type_token "\<lambda>c. \<not> isspace c" ?r1] tok by blast+
  have "\<not> isspace (hd ?r2)"
    using name word_char_not_space by (cases stat_name) auto
  then have 3: "takeWhile isspace (ws2 @ ?r2) = ws2" "dropWhile isspace (ws2 @ ?r2) = ?r2"
    using takeWhile_stop [of ws2 isspace ?r2] ws2 by blast+
  have "\<not> is_word_char (hd ?r3)"
    using ws3 word_char_not_space paren_not_word_char by (cases ws3) auto
  then have 4: "takeWhile is_word_char (stat_name @ ?r3) = stat_name"
    "dropWhile is_word_char (stat_name @ ?r3) = ?r3"
    using takeWhile_stop [of stat_name is_word_char ?r3] name by blast+
  have "\<not> isspace (hd (''('' @ rest))"
    using paren_not_space by simp
  then have 5: "dropWhile isspace (ws3 @ ''('' @ rest) = ''('' @ rest"
    using takeWhile_stop(2) [of ws3 isspace "''('' @ rest"] ws3 by blast
  show ?thesis
    unfolding BASE_STAT_PATTERN_match_def Let_def base(2) 1 2 3 4 5
    using ws1 tok ws2 name base(1) by (simp add: startswith_def)
qed

lemma BASE_STAT_PATTERN_match_groups:
  assumes "BASE_STAT_PATTERN_match s = Some (type_token, stat_name)"
  shows "BASE_STAT_PATTERN_groups s type_token stat_name"
proof -
  define after_base where "after_base = drop (length ''base'') s"
  define after_ws1 where "after_ws1 = dropWhile isspace after_base"
  define after_type where "after_type = dropWhile (\<lambda>c. \<not> isspace c) after_ws1"
  define after_ws2 where "after_ws2 = dropWhile isspace after_type"
  define after_name where "after_name = dropWhile is_word_char after_ws2"
  define after_ws3 where "after_ws3 = dropWhile isspace after_name"
  define ws1 where "ws1 = takeWhile isspace after_base"
  define ws2 where "ws2 = takeWhile isspace after_type"
  define ws3 where "ws3 = takeWhile isspace after_name"
  note defs = after_base_def after_ws1_def after_type_def after_ws2_def after_name_def
    after_ws3_def ws1_def ws2_def ws3_def
  from assms have conds: "startswith s ''base''" "ws1 \<noteq> []" "type_token \<noteq> []" "ws2 \<noteq> []"
    "stat_name \<noteq> []" "startswith after_ws3 ''(''"
    and tok: "type_token = takeWhile (\<lambda>c. \<not> isspace c) after_ws1"
    and name: "stat_name = takeWhile is_word_char after_ws2"
    unfolding BASE_STAT_PATTERN_match_def Let_def defs
    by (simp_all split: if_splits)
  have "s = ''base'' @ after_base"
    using conds(1) append_take_drop_id [of "length ''base''" s]
    unfolding startswith_def after_base_def by metis
  moreover have "after_base = ws1 @ after_ws1"
    by (simp add: ws1_def after_ws1_def)
  moreover have "after_ws1 = type_token @ after_type"
    by (simp add: tok after_type_def)
  moreover have "after_type = ws2 @ after_ws2"
    by (simp add: ws2_def after_ws2_def)
  moreover have "after_ws2 = stat_name @ after_name"
    by (simp add: name after_name_def)
  moreover have "after_name = ws3 @ after_ws3"
    by (simp add: ws3_def after_ws3_def)
  moreover have "after_ws3 = ''('' @ drop 1 after_ws3"
    using conds(6) append_take_drop_id [of "length ''(''" after_ws3]
    unfolding startswith_def by simp
  ultimately have s: "s = ''base'' @ ws1 @ type_token @ ws2 @ stat_name @ ws3 @ ''(''
                          @ drop 1 after_ws3"
    by (metis append.assoc)
  have "\<forall>c \<in> set ws1. isspace c" "\<forall>c \<in> set ws2. isspace c" "\<forall>c \<in> set ws3. isspace c"
    "\<forall>c \<in> set type_token. \<not> isspace c" "\<forall>c \<in> set stat_name. is_word_char c"
    unfolding ws1_def ws2_def ws3_def tok name by (auto dest: set_takeWhileD)
  with s conds show ?thesis
    unfolding BASE_STAT_PATTERN_groups_def by blast
qed

lemma BASE_STAT_PATTERN_match_iff:
  "BASE_STAT_PATTERN_match s = Some (type_token, stat_name)
   \<longleftrightarrow> BASE_STAT_PATTERN_groups s type_token stat_name"
  using BASE_STAT_PATTERN_groups_match BASE_STAT_PATTERN_match_groups by blast

lemma line_declaration_iff:
  "line_declaration line = Some (type_token, stat_name) \<longleftrightarrow> declares line type_token stat_name"
  by (auto simp add: line_declaration_def declares_def BASE_STAT_PATTERN_match_iff Let_def)

section \<open>The schema compiler: last declaration wins\<close>

lemma parse_stats_lines_Cons:
  "parse_stats_lines (line # lines) stats =
     parse_stats_lines lines
       (case line_declaration line of
          None \<Rightarrow> stats
        | Some (type_token, stat_name) \<Rightarrow> stats(stat_name \<mapsto> parse_type type_token))"
  by (simp add: parse_stats_lines.simps(2) line_declaration_def Let_def split: option.splits)

text \<open>
  The entry of a name after the loop: the type of the last line that declares the name,
  and the entry the dictionary had before when no line declares it.
\<close>

lemma parse_stats_lines_lookup:
  "parse_stats_lines lines stats name = Some t \<longleftrightarrow>
     (\<exists>before line after tok.
         lines = before @ line # after
         \<and> line_declaration line = Some (tok, name)
         \<and> (\<forall>l \<in> set after. \<forall>tok'. line_declaration l \<noteq> Some (tok', name))
         \<and> t = parse_type tok)
     \<or> ((\<forall>l \<in> set lines. \<forall>tok'. line_declaration l \<noteq> Some (tok', name))
         \<and> stats name = Some t)"
proof (induction lines arbitrary: stats)
  case Nil
  show ?case by simp
next
  case (Cons l ls)
  let ?later = "\<exists>before line after tok.
         ls = before @ line # after
         \<and> line_declaration line = Some (tok, name)
         \<and> (\<forall>l \<in> set after. \<forall>tok'. line_declaration l \<noteq> Some (tok', name))
         \<and> t = parse_type tok"
  let ?none = "\<forall>l \<in> set ls. \<forall>tok'. line_declaration l \<noteq> Some (tok', name)"
  have split: "(\<exists>before line after tok.
         l # ls = before @ line # after
         \<and> line_declaration line = Some (tok, name)
         \<and> (\<forall>l \<in> set after. \<forall>tok'. line_declaration l \<noteq> Some (tok', name))
         \<and> t = parse_type tok)
     \<longleftrightarrow> (\<exists>tok. line_declaration l = Some (tok, name) \<and> ?none \<and> t = parse_type tok) \<or> ?later"
    (is "?lhs \<longleftrightarrow> ?here \<or> ?later")
  proof
    assume ?lhs
    then obtain before line after tok where
      d: "l # ls = before @ line # after" "line_declaration line = Some (tok, name)"
         "\<forall>l \<in> set after. \<forall>tok'. line_declaration l \<noteq> Some (tok', name)" "t = parse_type tok"
      by blast
    show "?here \<or> ?later"
    proof (cases before)
      case Nil
      with d show ?thesis by auto
    next
      case (Cons b bs)
      with d have "ls = bs @ line # after" by simp
      with d show ?thesis by blast
    qed
  next
    assume "?here \<or> ?later"
    then show ?lhs
    proof
      assume ?here
      then obtain tok where "line_declaration l = Some (tok, name)" ?none "t = parse_type tok"
        by blast
      then have "l # ls = [] @ l # ls \<and> line_declaration l = Some (tok, name)
          \<and> (\<forall>l \<in> set ls. \<forall>tok'. line_declaration l \<noteq> Some (tok', name)) \<and> t = parse_type tok"
        by simp
      then show ?lhs by blast
    next
      assume ?later
      then obtain before line after tok where
        d: "ls = before @ line # after" "line_declaration line = Some (tok, name)"
           "\<forall>l \<in> set after. \<forall>tok'. line_declaration l \<noteq> Some (tok', name)" "t = parse_type tok"
        by blast
      then have "l # ls = (l # before) @ line # after" by simp
      with d show ?lhs by blast
    qed
  qed
  have ih: "parse_stats_lines ls stats' name = Some t
            \<longleftrightarrow> ?later \<or> (?none \<and> stats' name = Some t)" for stats'
    using Cons [of stats'] by blast
  have all: "(\<forall>l' \<in> set (l # ls). \<forall>tok'. line_declaration l' \<noteq> Some (tok', name))
             \<longleftrightarrow> (\<forall>tok'. line_declaration l \<noteq> Some (tok', name)) \<and> ?none"
    by simp
  show ?case
  proof (cases "line_declaration l")
    case None
    then have u: "parse_stats_lines (l # ls) stats = parse_stats_lines ls stats"
      by (simp only: parse_stats_lines_Cons option.case)
    show ?thesis
      unfolding split all u ih [of stats] using None by simp
  next
    case (Some d)
    obtain tok n where d: "d = (tok, n)" by (cases d)
    from Some d have unfold: "parse_stats_lines (l # ls) stats
                      = parse_stats_lines ls (stats(n \<mapsto> parse_type tok))"
      by (simp only: parse_stats_lines_Cons option.case prod.case)
    show ?thesis
    proof (cases "n = name")
      case True
      have here: "(\<exists>tok'. line_declaration l = Some (tok', name) \<and> ?none \<and> t = parse_type tok')
                  \<longleftrightarrow> ?none \<and> t = parse_type tok"
        using Some d True by auto
      have no: "\<not> (\<forall>tok'. line_declaration l \<noteq> Some (tok', name))"
        using Some d True by simp
      show ?thesis
        unfolding split all unfold ih [of "stats(n \<mapsto> parse_type tok)"] here
        using no True by auto
    next
      case False
      have here: "\<not> (\<exists>tok'. line_declaration l = Some (tok', name) \<and> ?none \<and> t = parse_type tok')"
        using Some d False by auto
      have no: "\<forall>tok'. line_declaration l \<noteq> Some (tok', name)"
        using Some d False by simp
      show ?thesis
        unfolding split all unfold ih [of "stats(n \<mapsto> parse_type tok)"]
        using here no False by auto
    qed
  qed
qed

text \<open>
  C7 does not hold as the specification states it. The first text has whitespace between
  the name and the opening parenthesis, the second does not begin with \<^verbatim>\<open>base\<close> but with
  two spaces; the compiler makes an entry from each.
\<close>

theorem schema_compiler_counterexample:
  "parse_stats_file ''base integer hp (10)'' ''hp''
     = Some \<lparr>kind = ''integer'', is_array = False, resource_type = None\<rparr>
   \<and> parse_stats_file ''  base integer hp(10)'' ''hp''
     = Some \<lparr>kind = ''integer'', is_array = False, resource_type = None\<rparr>"
  by (simp add: parse_stats_file_def parse_stats_lines.simps(2) splitlines_def
        is_line_boundary_def strip_def isspace_def startswith_def BASE_STAT_PATTERN_match_def
        is_word_char_def parse_type_def endswith_def)

text \<open>
  C7, amended. The compiler makes an entry only from a line that, with the whitespace at
  both ends stripped, begins with \<^verbatim>\<open>base\<close> and a space and matches the pattern: keyword,
  whitespace, a type token without whitespace, whitespace, a name of letters, digits and
  underscores, optional whitespace, an opening parenthesis. Every other line is skipped.
  The schema has an entry for a name exactly when some line declares it, and the entry
  is the type parsed from the last line that does.
\<close>

theorem schema_compiler_last_declaration_wins:
  "parse_stats_file text stat_name = Some t \<longleftrightarrow>
     (\<exists>before line after type_token.
         splitlines text = before @ line # after
         \<and> declares line type_token stat_name
         \<and> (\<forall>l \<in> set after. \<forall>tok. \<not> declares l tok stat_name)
         \<and> t = parse_type type_token)"
  unfolding parse_stats_file_def
    parse_stats_lines_lookup [of "splitlines text" Map.empty stat_name t]
  by (simp add: line_declaration_iff)

theorem schema_compiler_last_declaration_wins_witness:
  "parse_stats_file
     ''base integer hp(10)\<newline>derived integer hp()\<newline>  base string[] hp (x)\<newline>base bool alive\<newline>''
     ''hp''
   = Some \<lparr>kind = ''string'', is_array = True, resource_type = None\<rparr>"
proof -
  note ev = line_declaration_def strip_def isspace_def startswith_def
    BASE_STAT_PATTERN_match_def is_word_char_def
  let ?text = "''base integer hp(10)\<newline>derived integer hp()\<newline>  base string[] hp (x)\<newline>base bool alive\<newline>''"
  have 0: "splitlines ?text
           = [''base integer hp(10)'', ''derived integer hp()''] @ ''  base string[] hp (x)''
             # [''base bool alive'']"
    by (simp add: splitlines_def is_line_boundary_def)
  have 1: "declares ''  base string[] hp (x)'' ''string[]'' ''hp''"
    unfolding line_declaration_iff [symmetric] by (simp add: ev)
  have "line_declaration ''base bool alive'' = None"
    by (simp add: ev)
  then have 2: "\<forall>l \<in> set [''base bool alive'']. \<forall>tok. \<not> declares l tok ''hp''"
    unfolding line_declaration_iff [symmetric] by simp
  have 3: "\<lparr>kind = ''string'', is_array = True, resource_type = None\<rparr> = parse_type ''string[]''"
    by (simp add: parse_type_def endswith_def startswith_def slice_to_end_def)
  from 0 1 2 3 have "\<exists>before line after type_token.
         splitlines ?text = before @ line # after
         \<and> declares line type_token ''hp''
         \<and> (\<forall>l \<in> set after. \<forall>tok. \<not> declares l tok ''hp'')
         \<and> \<lparr>kind = ''string'', is_array = True, resource_type = None\<rparr> = parse_type type_token"
    by blast
  then show ?thesis
    using schema_compiler_last_declaration_wins
      [of ?text "''hp''" "\<lparr>kind = ''string'', is_array = True, resource_type = None\<rparr>"]
    by blast
qed

end
